theory Spec2Isabelle
  imports Main "HOL-Library.Multiset"
begin

section \<open>Python values, exceptions and the outside world\<close>

text \<open>
  The theory embeds three methods of the class \<open>ByBitHistoricalDataDownloader\<close>:
  \<open>_split_date_range\<close>, \<open>_download_file\<close> and the part of \<open>download_data\<close> that
  runs the thread pool and counts the results. A leading underscore is not a legal
  start of an Isabelle name, so the private methods drop it.

  A file description is the dictionary the list-files endpoint returned; its values
  are whatever \<open>response.json()\<close> produced: null, a boolean, an integer, a floating
  point number (kept as its literal), a string, a list or an object. A string is the
  list of the bytes of its UTF-8 encoding.
\<close>

datatype pyval =
    PNone
  | PBool bool
  | PInt int
  | PFloat string
  | PStr string
  | PList "pyval list"
  | PDict "(string \<times> pyval) list"

type_synonym file_info = "string \<rightharpoonup> pyval"

text \<open>
  Every \<open>raise\<close> of the source, and every exception of a library call that the source
  catches or lets through, is a value of \<open>exn\<close>. \<open>RequestError\<close> stands for whatever
  \<open>client.stream\<close> or the body iterator raises (connection, timeout, protocol, an
  unusable URL); \<open>HTTPStatusError\<close> is what \<open>raise_for_status\<close> raises.
\<close>

datatype exn =
    KeyError string
  | TypeError
  | ValueError
  | OSError
  | RequestError
  | HTTPStatusError nat
  | OverflowError

subsection \<open>\<open>int(...)\<close> on a JSON value\<close>

text \<open>
  \<open>int\<close> is a builtin of Python, not code of this repository. What it makes of a
  value (which white space it strips from a string, which digits it reads, how long a
  literal may be, how it truncates a floating point number) is a parameter \<open>py_int\<close>
  of the model: a function from values to an integer or an exception. Every statement
  below that mentions \<open>py_int\<close> holds for every such function.

  \<open>int(file_info.get('size', 0))\<close>
\<close>

definition expected_size :: "(pyval \<Rightarrow> exn + int) \<Rightarrow> file_info \<Rightarrow> exn + int" where
  "expected_size py_int file_info =
     py_int (case file_info ''size'' of None \<Rightarrow> PInt 0 | Some v \<Rightarrow> v)"

subsection \<open>The filesystem and the trace of effects\<close>

text \<open>
  A path names a regular file or a directory, each with the \<open>st_size\<close> that \<open>stat\<close>
  reports; file contents are not needed, only their length. The filesystem is a map
  from paths to what they name: two different paths are two different places, so
  links, \<open>..\<close> components that lead back to a place already named, and file names
  that differ only in case are outside the model.
\<close>

datatype node = File nat | Dir nat

datatype event =
    StreamGET pyval
  | Sleep nat
  | Unlink string
  | Mkdir string

record world =
  fs :: "string \<rightharpoonup> node"
  events :: "event list"

definition emit :: "event \<Rightarrow> world \<Rightarrow> world" where
  "emit e w = w\<lparr>events := events w @ [e]\<rparr>"

text \<open>
  Paths are the strings \<open>pathlib\<close> prints for a \<open>PosixPath\<close>. \<open>Path(s)\<close> splits \<open>s\<close> at
  the slashes, drops empty components and \<open>.\<close> components (not \<open>..\<close>), and keeps a root:
  \<open>//\<close> for exactly two leading slashes, \<open>/\<close> for one or for three and more. A path
  without root and without components prints as \<open>.\<close>.
\<close>

fun split_on :: "char \<Rightarrow> string \<Rightarrow> string list" where
  "split_on c [] = [[]]"
| "split_on c (x # xs) =
     (if x = c then [] # split_on c xs
      else (case split_on c xs of [] \<Rightarrow> [[x]] | p # ps \<Rightarrow> (x # p) # ps))"

definition path_parts :: "string \<Rightarrow> string list" where
  "path_parts s = filter (\<lambda>p. p \<noteq> [] \<and> p \<noteq> ''.'') (split_on CHR ''/'' s)"

definition path_root :: "string \<Rightarrow> string" where
  "path_root s =
     (if take 2 s = ''//'' \<and> take 3 s \<noteq> ''///'' then ''//''
      else if take 1 s = ''/'' then ''/''
      else [])"

fun join_parts :: "string list \<Rightarrow> string" where
  "join_parts [] = []"
| "join_parts [p] = p"
| "join_parts (p # q # ps) = p @ ''/'' @ join_parts (q # ps)"

definition path_str :: "string \<Rightarrow> string list \<Rightarrow> string" where
  "path_str root parts = (if root = [] \<and> parts = [] then ''.'' else root @ join_parts parts)"

text \<open>\<open>str(Path(s))\<close>\<close>

definition path_norm :: "string \<Rightarrow> string" where
  "path_norm s = path_str (path_root s) (path_parts s)"

text \<open>
  \<open>str(Path(d) / f)\<close>: a right operand with a root replaces the left one; otherwise
  its components follow those of the left operand.
\<close>

definition path_join :: "string \<Rightarrow> string \<Rightarrow> string" where
  "path_join d f =
     (if path_root f \<noteq> [] then path_norm f
      else path_str (path_root d) (path_parts d @ path_parts f))"

text \<open>
  \<open>str(Path(p).parent)\<close>: the path without its last component; a path without
  components is its own parent.
\<close>

definition path_parent :: "string \<Rightarrow> string" where
  "path_parent p =
     (if path_parts p = [] then path_norm p
      else path_str (path_root p) (butlast (path_parts p)))"

definition exists :: "world \<Rightarrow> string \<Rightarrow> bool" where
  "exists w p = (fs w p \<noteq> None)"

definition st_size :: "node \<Rightarrow> nat" where
  "st_size n = (case n of File k \<Rightarrow> k | Dir k \<Rightarrow> k)"

text \<open>
  \<open>Path.unlink\<close>: removes a regular file; raises on a directory, on a missing path
  and whenever the environment refuses (\<open>err\<close>).
\<close>

definition unlink :: "bool \<Rightarrow> string \<Rightarrow> world \<Rightarrow> exn + world" where
  "unlink err p w =
     (case fs w p of
        Some (File _) \<Rightarrow>
          if err then Inl OSError
          else Inr (emit (Unlink p) (w\<lparr>fs := (fs w)(p := None)\<rparr>))
      | Some (Dir _) \<Rightarrow> Inl OSError
      | None \<Rightarrow> Inl OSError)"

text \<open>
  \<open>Path.mkdir(parents=True, exist_ok=True)\<close>: nothing to do for a directory, an error
  for a regular file in the way or when the environment refuses; a new directory gets
  the size the filesystem gives it. Only the named directory is recorded, not its
  ancestors.
\<close>

definition mkdir :: "bool \<Rightarrow> nat \<Rightarrow> string \<Rightarrow> world \<Rightarrow> exn + world" where
  "mkdir err dsize p w =
     (if err then Inl OSError
      else
        (case fs w p of
           Some (File _) \<Rightarrow> Inl OSError
         | Some (Dir _) \<Rightarrow> Inr w
         | None \<Rightarrow> Inr (emit (Mkdir p) (w\<lparr>fs := (fs w)(p \<mapsto> Dir dsize)\<rparr>))))"

subsection \<open>What the environment decides\<close>

text \<open>
  One call of \<open>client.stream('GET', url)\<close> either raises, or yields a response with a
  status code and a body. The body arrives as the chunks of
  \<open>iter_bytes(chunk_size=8192)\<close>, given by their lengths; the flag says whether the
  iterator ends normally after them (\<open>True\<close>) or raises. The client hands out whole
  chunks of 8192 bytes and, when the body ends normally, one last shorter chunk with
  the rest; the model accepts any list of lengths, and the concrete inputs below use
  only lists of that form.
\<close>

datatype response = Raises | Response nat "nat list" bool

text \<open>
  For one attempt the environment fixes the response and which filesystem calls fail:
  \<open>open\<close>, the \<open>write\<close> of the chunk with a given index, the \<open>unlink\<close> after a size
  mismatch, the \<open>unlink\<close> of the exception handler.
\<close>

record attempt_env =
  resp :: response
  open_err :: bool
  write_err :: "nat option"
  unlink_err :: bool
  cleanup_err :: bool

record fetch_env =
  mkdir_err :: bool
  dir_size :: nat
  attempts :: "nat \<Rightarrow> attempt_env"

section \<open>\<open>_download_file\<close>\<close>

definition max_retries :: nat where
  "max_retries = 3"

text \<open>
  The body of the \<open>try\<close> block ends in one of three ways: \<open>return True\<close>, \<open>continue\<close>
  (size mismatch), or an exception.
\<close>

datatype attempt_result = ReturnTrue | Continue

definition is_dir :: "world \<Rightarrow> string \<Rightarrow> bool" where
  "is_dir w p = (case fs w p of Some (Dir _) \<Rightarrow> True | _ \<Rightarrow> False)"

text \<open>
  The \<open>with open(file_path, 'wb')\<close> block: the file is created or truncated, then one
  chunk after the other is appended. A failing write leaves the chunks before it on
  disk; a failing stream leaves all chunks it delivered.
\<close>

definition stream_to_file ::
  "attempt_env \<Rightarrow> nat list \<Rightarrow> bool \<Rightarrow> string \<Rightarrow> world \<Rightarrow> (exn + unit) \<times> world" where
  "stream_to_file ae chunks ok file_path w =
     (if open_err ae \<or> is_dir w file_path then (Inl OSError, w)
      else
        (case write_err ae of
           Some j \<Rightarrow>
             if j < length chunks
             then (Inl OSError, w\<lparr>fs := (fs w)(file_path \<mapsto> File (sum_list (take j chunks)))\<rparr>)
             else if ok
             then (Inr (), w\<lparr>fs := (fs w)(file_path \<mapsto> File (sum_list chunks))\<rparr>)
             else (Inl RequestError, w\<lparr>fs := (fs w)(file_path \<mapsto> File (sum_list chunks))\<rparr>)
         | None \<Rightarrow>
             if ok
             then (Inr (), w\<lparr>fs := (fs w)(file_path \<mapsto> File (sum_list chunks))\<rparr>)
             else (Inl RequestError, w\<lparr>fs := (fs w)(file_path \<mapsto> File (sum_list chunks))\<rparr>)))"

text \<open>The size check after the download, lines 251 to 261.\<close>

definition verify_size ::
  "(pyval \<Rightarrow> exn + int) \<Rightarrow> attempt_env \<Rightarrow> string \<Rightarrow> file_info \<Rightarrow> world
     \<Rightarrow> (exn + attempt_result) \<times> world" where
  "verify_size py_int ae file_path file_info w =
     (case expected_size py_int file_info of
        Inl e \<Rightarrow> (Inl e, w)
      | Inr expected \<Rightarrow>
          (case fs w file_path of
             None \<Rightarrow> (Inl OSError, w)
           | Some n \<Rightarrow>
               if expected > 0 \<and> int (st_size n) \<noteq> expected then
                 (case unlink (unlink_err ae) file_path w of
                    Inl e \<Rightarrow> (Inl e, w)
                  | Inr w' \<Rightarrow> (Inr Continue, w'))
               else (Inr ReturnTrue, w)))"

text \<open>The \<open>try\<close> block of one attempt, lines 243 to 261.\<close>

definition attempt_body ::
  "(pyval \<Rightarrow> exn + int) \<Rightarrow> attempt_env \<Rightarrow> pyval \<Rightarrow> string \<Rightarrow> file_info \<Rightarrow> world
     \<Rightarrow> (exn + attempt_result) \<times> world" where
  "attempt_body py_int ae url file_path file_info w =
     (let w1 = emit (StreamGET url) w in
      case resp ae of
        Raises \<Rightarrow> (Inl RequestError, w1)
      | Response code chunks ok \<Rightarrow>
          if \<not> (200 \<le> code \<and> code < 300) then (Inl (HTTPStatusError code), w1)
          else
            (case stream_to_file ae chunks ok file_path w1 of
               (Inl e, w2) \<Rightarrow> (Inl e, w2)
             | (Inr _, w2) \<Rightarrow> verify_size py_int ae file_path file_info w2))"

text \<open>
  The \<open>except Exception\<close> handler, lines 263 to 269: remove whatever is at the target
  path, then back off unless this was the last attempt. An exception of the \<open>unlink\<close>
  leaves the handler and the function.
\<close>

definition handle_failure :: "attempt_env \<Rightarrow> nat \<Rightarrow> string \<Rightarrow> world \<Rightarrow> exn + world" where
  "handle_failure ae attempt file_path w =
     (case (if exists w file_path then unlink (cleanup_err ae) file_path w else Inr w) of
        Inl e \<Rightarrow> Inl e
      | Inr w1 \<Rightarrow>
          Inr (if attempt < max_retries - 1 then emit (Sleep (2 ^ attempt)) w1 else w1))"

text \<open>
  \<open>for attempt in range(max_retries)\<close>, over the attempt numbers still to run. Falling
  out of the loop is \<open>return False\<close>.
\<close>

fun retry_loop ::
  "(pyval \<Rightarrow> exn + int) \<Rightarrow> fetch_env \<Rightarrow> pyval \<Rightarrow> string \<Rightarrow> file_info \<Rightarrow> nat list \<Rightarrow> world
     \<Rightarrow> (exn + bool) \<times> world" where
  "retry_loop py_int env url file_path file_info [] w = (Inr False, w)"
| "retry_loop py_int env url file_path file_info (attempt # rest) w =
     (case attempt_body py_int (attempts env attempt) url file_path file_info w of
        (Inr ReturnTrue, w1) \<Rightarrow> (Inr True, w1)
      | (Inr Continue, w1) \<Rightarrow> retry_loop py_int env url file_path file_info rest w1
      | (Inl e, w1) \<Rightarrow>
          (case handle_failure (attempts env attempt) attempt file_path w1 of
             Inl e' \<Rightarrow> (Inl e', w1)
           | Inr w2 \<Rightarrow> retry_loop py_int env url file_path file_info rest w2))"

text \<open>
  Lines 230 to 235: \<open>Inr True\<close> when the function returns early, \<open>Inr False\<close> when it goes
  on to download.
\<close>

definition already_complete ::
  "(pyval \<Rightarrow> exn + int) \<Rightarrow> file_info \<Rightarrow> string \<Rightarrow> world \<Rightarrow> exn + bool" where
  "already_complete py_int file_info file_path w =
     (case fs w file_path of
        None \<Rightarrow> Inr False
      | Some n \<Rightarrow>
          (case expected_size py_int file_info of
             Inl e \<Rightarrow> Inl e
           | Inr expected \<Rightarrow> Inr (expected > 0 \<and> int (st_size n) = expected)))"

definition download_file ::
  "(pyval \<Rightarrow> exn + int) \<Rightarrow> fetch_env \<Rightarrow> file_info \<Rightarrow> string \<Rightarrow> world
     \<Rightarrow> (exn + bool) \<times> world" where
  "download_file py_int env file_info output_dir w =
     (case file_info ''url'' of
        None \<Rightarrow> (Inl (KeyError ''url''), w)
      | Some url \<Rightarrow>
     (case file_info ''filename'' of
        None \<Rightarrow> (Inl (KeyError ''filename''), w)
      | Some (PStr filename) \<Rightarrow>
          (let file_path = path_join output_dir filename in
           case already_complete py_int file_info file_path w of
             Inl e \<Rightarrow> (Inl e, w)
           | Inr True \<Rightarrow> (Inr True, w)
           | Inr False \<Rightarrow>
               (case mkdir (mkdir_err env) (dir_size env) (path_parent file_path) w of
                  Inl e \<Rightarrow> (Inl e, w)
                | Inr w1 \<Rightarrow> retry_loop py_int env url file_path file_info [0..<max_retries] w1))
      | Some _ \<Rightarrow> (Inl TypeError, w)))"

section \<open>The pool and the counters of \<open>download_data\<close>\<close>

text \<open>
  The model starts at line 318, with the list \<open>all_files\<close> that the lines before it
  collected, and with \<open>output_path\<close> as the string \<open>str(output_path)\<close> handed to every
  task, a path as \<open>pathlib\<close> prints it.

  \<open>executor.submit\<close> is called once for each element of \<open>all_files\<close>. The tasks run in
  worker threads; here each task runs from start to end without another task in
  between, in the order \<open>order\<close> (a list of positions in \<open>all_files\<close>), on the filesystem
  the tasks before it left behind, and \<open>as_completed\<close> hands the futures to the counting
  loop in that same order. A future carries what its task returned or raised.
\<close>

record stats =
  total_files :: int
  downloaded :: int
  failed :: int

record engine_env =
  out_mkdir_err :: bool
  out_dir_size :: nat
  order :: "nat list"
  fetch_envs :: "nat \<Rightarrow> fetch_env"

fun run_tasks ::
  "(pyval \<Rightarrow> exn + int) \<Rightarrow> (nat \<Rightarrow> fetch_env) \<Rightarrow> file_info list \<Rightarrow> string \<Rightarrow> nat list
     \<Rightarrow> world \<Rightarrow> (file_info \<times> (exn + bool)) list \<times> world" where
  "run_tasks py_int envs all_files output_path [] w = ([], w)"
| "run_tasks py_int envs all_files output_path (i # rest) w =
     (case download_file py_int (envs i) (all_files ! i) output_path w of
        (r, w1) \<Rightarrow>
          (case run_tasks py_int envs all_files output_path rest w1 of
             (rs, w2) \<Rightarrow> ((all_files ! i, r) # rs, w2)))"

text \<open>
  The loop over \<open>as_completed\<close>, lines 339 to 349. The handler formats
  \<open>file_info['filename']\<close> into its log message, which raises \<open>KeyError\<close> when the key is
  missing; nothing catches that.
\<close>

fun collect :: "(file_info \<times> (exn + bool)) list \<Rightarrow> int \<Rightarrow> int \<Rightarrow> exn + int \<times> int" where
  "collect [] successful nfailed = Inr (successful, nfailed)"
| "collect ((file_info, r) # rest) successful nfailed =
     (case r of
        Inr True \<Rightarrow> collect rest (successful + 1) nfailed
      | Inr False \<Rightarrow> collect rest successful (nfailed + 1)
      | Inl e \<Rightarrow>
          (case file_info ''filename'' of
             None \<Rightarrow> Inl (KeyError ''filename'')
           | Some _ \<Rightarrow> collect rest successful (nfailed + 1)))"

text \<open>
  Lines 318 to 358. \<open>ThreadPoolExecutor\<close> refuses \<open>max_workers \<le> 0\<close> with \<open>ValueError\<close>.
  When the counting loop raises, the \<open>with\<close> block still waits for every submitted
  task, so the filesystem is the one after all tasks either way.
\<close>

definition download_data ::
  "(pyval \<Rightarrow> exn + int) \<Rightarrow> int \<Rightarrow> engine_env \<Rightarrow> file_info list \<Rightarrow> string \<Rightarrow> world
     \<Rightarrow> (exn + stats) \<times> world" where
  "download_data py_int parallel_downloads env all_files output_path w =
     (if all_files = [] then (Inr \<lparr>total_files = 0, downloaded = 0, failed = 0\<rparr>, w)
      else
        (case mkdir (out_mkdir_err env) (out_dir_size env) output_path w of
           Inl e \<Rightarrow> (Inl e, w)
         | Inr w1 \<Rightarrow>
             if parallel_downloads \<le> 0 then (Inl ValueError, w1)
             else
               (case run_tasks py_int (fetch_envs env) all_files output_path (order env) w1 of
                  (completed, w2) \<Rightarrow>
                    (case collect completed 0 0 of
                       Inl e \<Rightarrow> (Inl e, w2)
                     | Inr (successful, nfailed) \<Rightarrow>
                         (Inr \<lparr>total_files = int (length all_files),
                               downloaded = successful, failed = nfailed\<rparr>, w2)))))"

subsection \<open>Observations on a trace\<close>

fun is_get :: "event \<Rightarrow> bool" where
  "is_get (StreamGET _) = True"
| "is_get _ = False"

fun is_sleep :: "event \<Rightarrow> bool" where
  "is_sleep (Sleep _) = True"
| "is_sleep _ = False"

text \<open>How often \<open>client.stream\<close> was called, and the backoff sleeps in order.\<close>

definition gets :: "world \<Rightarrow> nat" where
  "gets w = length (filter is_get (events w))"

definition sleeps :: "world \<Rightarrow> event list" where
  "sleeps w = filter is_sleep (events w)"

section \<open>\<open>_split_date_range\<close>\<close>

text \<open>
  A \<open>datetime\<close> at midnight is its proleptic Gregorian day number (\<open>toordinal\<close>), from 1
  for 0001-01-01 to 3652059 for 9999-12-31; \<open>strptime\<close> produces only such values and
  \<open>strftime\<close> prints them. Adding a \<open>timedelta\<close> that leaves the range raises
  \<open>OverflowError\<close>.
\<close>

definition max_ordinal :: int where
  "max_ordinal = 3652059"

definition valid_date :: "int \<Rightarrow> bool" where
  "valid_date d = (1 \<le> d \<and> d \<le> max_ordinal)"

definition add_days :: "int \<Rightarrow> int \<Rightarrow> exn + int" where
  "add_days d n = (if valid_date (d + n) then Inr (d + n) else Inl OverflowError)"

function split_loop :: "int \<Rightarrow> int \<Rightarrow> (int \<times> int) list \<Rightarrow> exn + (int \<times> int) list" where
  "split_loop current_start end chunks =
     (if current_start \<le> end then
        (case add_days current_start 6 of
           Inl e \<Rightarrow> Inl e
         | Inr t \<Rightarrow>
             (let current_end = min t end in
              case add_days current_end 1 of
                Inl e \<Rightarrow> Inl e
              | Inr next_start \<Rightarrow>
                  split_loop next_start end (chunks @ [(current_start, current_end)])))
      else Inr chunks)"
  by pat_completeness auto
termination
  by (relation "measure (\<lambda>(s, e, c). nat (e + 1 - s))")
     (auto simp: add_days_def split: if_splits)

definition split_date_range :: "int \<Rightarrow> int \<Rightarrow> exn + (int \<times> int) list" where
  "split_date_range start end = split_loop start end []"

text \<open>
  A list of windows tiles the days from \<open>s\<close> to \<open>e\<close>: the first starts at \<open>s\<close>, each has
  between one and seven days and none goes beyond \<open>e\<close>, each starts the day after the one
  before ends, and the day after the last is \<open>e + 1\<close>.
\<close>

fun tiles :: "int \<Rightarrow> int \<Rightarrow> (int \<times> int) list \<Rightarrow> bool" where
  "tiles s e [] = (s = e + 1)"
| "tiles s e ((a, b) # ws) =
     (a = s \<and> a \<le> b \<and> b \<le> a + 6 \<and> b \<le> e \<and> tiles (b + 1) e ws)"

text \<open>
  The start of the last window: \<open>start\<close> plus the largest multiple of seven days that
  does not go beyond \<open>end\<close>.
\<close>

definition last_start :: "int \<Rightarrow> int \<Rightarrow> int" where
  "last_start start end = start + 7 * ((end - start) div 7)"

section \<open>Notions used in the statements\<close>


text \<open>A finished task counts as a success when it returned \<open>True\<close>.\<close>

definition succeeded :: "file_info \<times> (exn + bool) \<Rightarrow> bool" where
  "succeeded c = (snd c = Inr True)"

text \<open>
  The finished tasks of a run of \<open>download_data\<close>, each with the description it was
  submitted for, in completion order.
\<close>

definition task_outcomes ::
  "(pyval \<Rightarrow> exn + int) \<Rightarrow> engine_env \<Rightarrow> file_info list \<Rightarrow> string \<Rightarrow> world
     \<Rightarrow> (file_info \<times> (exn + bool)) list" where
  "task_outcomes py_int env all_files output_path w =
     (case mkdir (out_mkdir_err env) (out_dir_size env) output_path w of
        Inl e \<Rightarrow> []
      | Inr w1 \<Rightarrow>
          fst (run_tasks py_int (fetch_envs env) all_files output_path (order env) w1))"

text \<open>
  An attempt fails, by what the environment decides for it: the request raises, the
  status is not 2xx, the body stream breaks off, \<open>open\<close> or a \<open>write\<close> fails, \<open>int\<close>
  raises on the size field, or a positive expected size differs from the number of
  bytes received. Otherwise it completes with a matching or unknown size.
\<close>

definition attempt_fails :: "(pyval \<Rightarrow> exn + int) \<Rightarrow> attempt_env \<Rightarrow> file_info \<Rightarrow> bool" where
  "attempt_fails py_int ae file_info =
     (case resp ae of
        Raises \<Rightarrow> True
      | Response code chunks ok \<Rightarrow>
          \<not> (200 \<le> code \<and> code < 300) \<or> \<not> ok \<or> open_err ae
          \<or> (case write_err ae of Some j \<Rightarrow> j < length chunks | None \<Rightarrow> False)
          \<or> (case expected_size py_int file_info of
                Inl e \<Rightarrow> True
              | Inr n \<Rightarrow> 0 < n \<and> int (sum_list chunks) \<noteq> n))"


text \<open>
  The download of an attempt completes with \<open>m\<close> bytes: the response has a 2xx status,
  the target could be opened for writing, every chunk was written and the body ended
  normally, \<open>m\<close> bytes in all.
\<close>

definition completes :: "attempt_env \<Rightarrow> world \<Rightarrow> string \<Rightarrow> nat \<Rightarrow> bool" where
  "completes ae w file_path m =
     (case resp ae of
        Raises \<Rightarrow> False
      | Response code chunks ok \<Rightarrow>
          200 \<le> code \<and> code < 300 \<and> ok \<and> sum_list chunks = m
          \<and> \<not> open_err ae \<and> write_err ae = None \<and> \<not> is_dir w file_path)"



subsection \<open>Concrete inputs\<close>

text \<open>
  The concrete inputs carry their sizes as JSON integers, and \<open>int\<close> of an integer is
  that integer. \<open>int_on_integers\<close> stands for \<open>int\<close> at these inputs only; what it
  gives for a value that is no integer plays no part.
\<close>

definition int_on_integers :: "pyval \<Rightarrow> exn + int" where
  "int_on_integers v = (case v of PInt n \<Rightarrow> Inr n | _ \<Rightarrow> Inl TypeError)"

definition ex_file :: "string \<Rightarrow> pyval \<Rightarrow> file_info" where
  "ex_file name sz =
     [''url'' \<mapsto> PStr (''https://host/'' @ name), ''filename'' \<mapsto> PStr name, ''size'' \<mapsto> sz]"

definition ex_attempt :: "response \<Rightarrow> attempt_env" where
  "ex_attempt r =
     \<lparr>resp = r, open_err = False, write_err = None, unlink_err = False, cleanup_err = False\<rparr>"

definition ex_fetch :: "(nat \<Rightarrow> response) \<Rightarrow> fetch_env" where
  "ex_fetch rs = \<lparr>mkdir_err = False, dir_size = 4096, attempts = (\<lambda>i. ex_attempt (rs i))\<rparr>"

definition ex_engine :: "nat list \<Rightarrow> (nat \<Rightarrow> fetch_env) \<Rightarrow> engine_env" where
  "ex_engine ord envs =
     \<lparr>out_mkdir_err = False, out_dir_size = 4096, order = ord, fetch_envs = envs\<rparr>"

definition empty_world :: world where
  "empty_world = \<lparr>fs = Map.empty, events = []\<rparr>"

definition ex_files :: "file_info list" where
  "ex_files = [ex_file ''a.csv.gz'' (PInt 5), ex_file ''b.csv.gz'' (PInt 7)]"

definition ex_env :: engine_env where
  "ex_env = ex_engine [1, 0] (\<lambda>i. ex_fetch (\<lambda>k. Response 200 [5] True))"

definition ex_a :: file_info where
  "ex_a = ex_file ''a.csv.gz'' (PInt 5)"



definition dir_world :: world where
  "dir_world = \<lparr>fs = [''.'' \<mapsto> Dir 4096, ''data'' \<mapsto> Dir 4096], events = []\<rparr>"


text \<open>A file of two bytes, left by an earlier run, stands at the target path.\<close>

definition stale_world :: world where
  "stale_world =
     \<lparr>fs = [''.'' \<mapsto> Dir 4096, ''data'' \<mapsto> Dir 4096, ''data/a.csv.gz'' \<mapsto> File 2],
      events = []\<rparr>"


definition fail_twice :: "nat \<Rightarrow> response" where
  "fail_twice k = (if k < 2 then Raises else Response 200 [5] True)"






text \<open>Every request is answered with status 404.\<close>

definition not_found :: fetch_env where
  "not_found = ex_fetch (\<lambda>k. Response 404 [] True)"

text \<open>Every request is answered with status 404 and the handler's \<open>unlink\<close> is refused.\<close>

definition not_found_no_cleanup :: fetch_env where
  "not_found_no_cleanup =
     \<lparr>mkdir_err = False, dir_size = 4096,
      attempts = (\<lambda>i. \<lparr>resp = Response 404 [] True, open_err = False, write_err = None,
                        unlink_err = False, cleanup_err = True\<rparr>)\<rparr>"

definition empty_name :: file_info where
  "empty_name =
     [''url'' \<mapsto> PStr ''https://host/a.csv.gz'', ''filename'' \<mapsto> PStr '''', ''size'' \<mapsto> PInt 5]"


definition no_name :: file_info where
  "no_name = [''url'' \<mapsto> PStr ''https://host/b.csv.gz'', ''size'' \<mapsto> PInt 7]"





section \<open>Properties of \<open>_split_date_range\<close>\<close>

lemma split_loop_exact:
  "1 \<le> cs \<Longrightarrow> cs \<le> e \<Longrightarrow> e \<le> max_ordinal \<Longrightarrow>
   (if e < max_ordinal \<and> last_start cs e + 6 \<le> max_ordinal
    then \<exists>ws. split_loop cs e acc = Inr (acc @ ws) \<and> tiles cs e ws
    else split_loop cs e acc = Inl OverflowError)"
proof (induction cs e acc rule: split_loop.induct)
  case (1 cs e acc)
  note le = \<open>cs \<le> e\<close>
  show ?case
  proof (cases "cs + 6 \<le> max_ordinal")
    case False
    then have a6: "add_days cs 6 = Inl OverflowError"
      by (simp add: add_days_def valid_date_def)
    have "\<not> last_start cs e + 6 \<le> max_ordinal"
      using False le unfolding last_start_def by presburger
    moreover have "split_loop cs e acc = Inl OverflowError"
      using le a6 by (simp add: split_loop.simps[of cs e acc])
    ultimately show ?thesis by simp
  next
    case True
    have a6: "add_days cs 6 = Inr (cs + 6)"
      using True "1.prems" by (simp add: add_days_def valid_date_def)
    show ?thesis
    proof (cases "e \<le> cs + 6")
      case last: True
      have ls: "last_start cs e = cs"
        using last le unfolding last_start_def by presburger
      have mn: "min (cs + 6) e = e" using last by simp
      show ?thesis
      proof (cases "e < max_ordinal")
        case False
        then have "add_days e 1 = Inl OverflowError"
          by (simp add: add_days_def valid_date_def)
        then have "split_loop cs e acc = Inl OverflowError"
          using le a6 mn by (simp add: split_loop.simps[of cs e acc] Let_def)
        with False show ?thesis by simp
      next
        case lt: True
        then have a1: "add_days e 1 = Inr (e + 1)"
          using le "1.prems" by (simp add: add_days_def valid_date_def)
        have "split_loop (e + 1) e (acc @ [(cs, e)]) = Inr (acc @ [(cs, e)])"
          by (simp add: split_loop.simps[of "e + 1" e])
        then have "split_loop cs e acc = Inr (acc @ [(cs, e)])"
          using le a6 a1 mn by (simp add: split_loop.simps[of cs e acc] Let_def)
        moreover have "tiles cs e [(cs, e)]" using le last by simp
        ultimately have "\<exists>ws. split_loop cs e acc = Inr (acc @ ws) \<and> tiles cs e ws"
          by blast
        with lt ls True show ?thesis by simp
      qed
    next
      case more: False
      define ce where "ce = min (cs + 6) e"
      have ce: "ce = cs + 6" using more by (simp add: ce_def)
      have a1: "add_days ce 1 = Inr (ce + 1)"
        using more "1.prems" by (simp add: add_days_def valid_date_def ce)
      have "(e - cs + 7 * (- 1)) div 7 = - 1 + (e - cs) div 7"
        by (rule div_mult_self2) simp
      moreover have "e - (ce + 1) = e - cs + 7 * (- 1)" using ce by simp
      ultimately have "(e - (ce + 1)) div 7 = (e - cs) div 7 - 1" by simp
      then have ls: "last_start (ce + 1) e = last_start cs e"
        by (simp add: last_start_def ce)
      have step: "split_loop cs e acc = split_loop (ce + 1) e (acc @ [(cs, ce)])"
        using le a6 a1 by (simp add: split_loop.simps[of cs e acc] Let_def ce_def)
      have ih: "if e < max_ordinal \<and> last_start (ce + 1) e + 6 \<le> max_ordinal
          then \<exists>ws. split_loop (ce + 1) e (acc @ [(cs, ce)]) = Inr ((acc @ [(cs, ce)]) @ ws)
                 \<and> tiles (ce + 1) e ws
          else split_loop (ce + 1) e (acc @ [(cs, ce)]) = Inl OverflowError"
      proof (rule "1.IH"[OF le a6 _ a1])
        show "ce = min (cs + 6) e" by (simp add: ce_def)
        show "1 \<le> ce + 1" using "1.prems" ce by simp
        show "ce + 1 \<le> e" using more ce by simp
        show "e \<le> max_ordinal" by fact
      qed
      show ?thesis
      proof (cases "e < max_ordinal \<and> last_start cs e + 6 \<le> max_ordinal")
        case False
        with ih ls have "split_loop (ce + 1) e (acc @ [(cs, ce)]) = Inl OverflowError"
          by simp
        with step False show ?thesis by simp
      next
        case True
        with ih ls have "\<exists>ws. split_loop (ce + 1) e (acc @ [(cs, ce)]) = Inr ((acc @ [(cs, ce)]) @ ws)
                 \<and> tiles (ce + 1) e ws" by simp
        then obtain ws where
          ws: "split_loop (ce + 1) e (acc @ [(cs, ce)]) = Inr ((acc @ [(cs, ce)]) @ ws)"
          and t: "tiles (ce + 1) e ws" by blast
        have "tiles cs e ((cs, ce) # ws)" using t more ce by simp
        moreover have "split_loop cs e acc = Inr (acc @ ((cs, ce) # ws))"
          using ws step by simp
        ultimately have "\<exists>ws. split_loop cs e acc = Inr (acc @ ws) \<and> tiles cs e ws"
          by blast
        with True show ?thesis by simp
      qed
    qed
  qed
qed

lemma tiles_nonempty: "tiles s e ws \<Longrightarrow> s \<le> e \<Longrightarrow> ws \<noteq> [] \<and> fst (hd ws) = s"
  by (cases ws) auto

lemma tiles_last: "tiles s e ws \<Longrightarrow> ws \<noteq> [] \<Longrightarrow> snd (last ws) = e"
  by (induction s e ws rule: tiles.induct) (auto split: if_splits)

lemma tiles_span: "tiles s e ws \<Longrightarrow> (a, b) \<in> set ws \<Longrightarrow> a \<le> b \<and> b \<le> a + 6"
  by (induction s e ws rule: tiles.induct) auto

lemma tiles_contiguous:
  "tiles s e ws \<Longrightarrow> Suc i < length ws \<Longrightarrow> fst (ws ! Suc i) = snd (ws ! i) + 1"
proof (induction s e ws arbitrary: i rule: tiles.induct)
  case (1 s e)
  then show ?case by simp
next
  case (2 s e a b ws)
  show ?case
  proof (cases i)
    case 0
    with 2 show ?thesis by (cases ws) auto
  next
    case (Suc j)
    with 2 show ?thesis by simp
  qed
qed

lemma tiles_concat:
  "tiles s e ws \<Longrightarrow> s \<le> e + 1 \<Longrightarrow> concat (map (\<lambda>(a, b). [a..b]) ws) = [s..e]"
proof (induction s e ws rule: tiles.induct)
  case (1 s e)
  then show ?case by simp
next
  case (2 s e a b ws)
  then have "concat (map (\<lambda>(a, b). [a..b]) ws) = [b + 1..e]" by simp
  moreover have "[s..e] = [s..b] @ [b + 1..e]"
    using 2 by (simp add: upto_split2)
  ultimately show ?case using 2 by simp
qed

section \<open>Effects of the parts of \<open>_download_file\<close>\<close>

lemma fs_emit [simp]: "fs (emit e w) = fs w"
  by (simp add: emit_def)

lemma events_emit [simp]: "events (emit e w) = events w @ [e]"
  by (simp add: emit_def)

lemma is_dir_emit [simp]: "is_dir (emit e w) p = is_dir w p"
  by (simp add: is_dir_def)

lemma exists_emit [simp]: "exists (emit e w) p = exists w p"
  by (simp add: exists_def)

lemma unlink_Inr:
  assumes "unlink err p w = Inr w'"
  shows "fs w' = (fs w)(p := None)" and "events w' = events w @ [Unlink p]"
    and "\<not> err" and "\<exists>k. fs w p = Some (File k)"
  using assms by (auto simp: unlink_def split: option.splits node.splits if_splits)

lemma unlink_Inl:
  assumes "unlink err p w = Inl e"
  shows "e = OSError" and "err \<or> fs w p = None \<or> is_dir w p"
  using assms by (auto simp: unlink_def is_dir_def split: option.splits node.splits if_splits)

lemma mkdir_Inr:
  assumes "mkdir err d q w = Inr w'"
  shows "\<not> err"
    and "fs w q = None \<Longrightarrow> fs w' = (fs w)(q \<mapsto> Dir d) \<and> events w' = events w @ [Mkdir q]"
    and "fs w q \<noteq> None \<Longrightarrow> w' = w \<and> is_dir w q"
    and "x \<noteq> q \<Longrightarrow> fs w' x = fs w x"
    and "fs w x = Some nd \<Longrightarrow> fs w' x = Some nd"
    and "gets w' = gets w" and "sleeps w' = sleeps w"
  using assms
  by (auto simp: mkdir_def is_dir_def gets_def sleeps_def split: option.splits node.splits if_splits)

lemma stream_to_file_effect:
  assumes "stream_to_file ae chunks ok p w = (r, w')"
  shows "events w' = events w"
    and "q \<noteq> p \<Longrightarrow> fs w' q = fs w q"
    and "is_dir w' p = is_dir w p"
    and "r = Inr u \<Longrightarrow> fs w' p = Some (File (sum_list chunks))"
  using assms
  by (auto simp: stream_to_file_def is_dir_def split: option.splits if_splits)

lemma verify_size_effect:
  assumes "verify_size py_int ae p fi w = (r, w')"
  shows "q \<noteq> p \<Longrightarrow> fs w' q = fs w q"
    and "is_dir w' p = is_dir w p"
    and "gets w' = gets w" and "sleeps w' = sleeps w"
    and "r = Inr ReturnTrue \<Longrightarrow>
           w' = w \<and> (\<exists>nd n. fs w p = Some nd \<and> expected_size py_int fi = Inr n
                        \<and> (n \<le> 0 \<or> int (st_size nd) = n))"
    and "r = Inr Continue \<Longrightarrow> fs w' p = None"
    and "r = Inl e \<Longrightarrow> w' = w"
  using assms
  by (auto simp: verify_size_def unlink_def emit_def is_dir_def gets_def sleeps_def
      split: sum.splits option.splits if_splits node.splits)

lemma attempt_body_effect:
  assumes "attempt_body py_int ae url p fi w = (r, w')"
  shows "gets w' = Suc (gets w)" and "sleeps w' = sleeps w"
    and "q \<noteq> p \<Longrightarrow> fs w' q = fs w q"
    and "is_dir w' p = is_dir w p"
    and "r = Inr ReturnTrue \<Longrightarrow>
           \<exists>k n. fs w' p = Some (File k) \<and> expected_size py_int fi = Inr n \<and> (n \<le> 0 \<or> int k = n)"
    and "r = Inr Continue \<Longrightarrow> fs w' p = None"
proof -
  let ?w1 = "emit (StreamGET url) w"
  have base: "gets ?w1 = Suc (gets w)" "sleeps ?w1 = sleeps w"
    by (simp_all add: gets_def sleeps_def)
  have "gets w' = Suc (gets w) \<and> sleeps w' = sleeps w
      \<and> (q \<noteq> p \<longrightarrow> fs w' q = fs w q) \<and> is_dir w' p = is_dir w p
      \<and> (r = Inr ReturnTrue \<longrightarrow>
           (\<exists>k n. fs w' p = Some (File k) \<and> expected_size py_int fi = Inr n \<and> (n \<le> 0 \<or> int k = n)))
      \<and> (r = Inr Continue \<longrightarrow> fs w' p = None)"
  proof (cases "resp ae")
    case Raises
    with assms base show ?thesis by (auto simp: attempt_body_def Let_def)
  next
    case (Response code chunks ok)
    show ?thesis
    proof (cases "200 \<le> code \<and> code < 300")
      case False
      with assms base Response show ?thesis by (auto simp: attempt_body_def Let_def)
    next
      case True
      obtain r2 w2 where s: "stream_to_file ae chunks ok p ?w1 = (r2, w2)"
        by (cases "stream_to_file ae chunks ok p ?w1")
      note se = stream_to_file_effect[OF s]
      have g2: "gets w2 = Suc (gets w)" "sleeps w2 = sleeps w"
        using se(1) base by (simp_all add: gets_def sleeps_def)
      show ?thesis
      proof (cases r2)
        case (Inl e)
        with assms Response True s have "r = Inl e" "w' = w2"
          by (auto simp: attempt_body_def Let_def)
        with g2 se show ?thesis by auto
      next
        case (Inr u)
        with assms Response True s have v: "verify_size py_int ae p fi w2 = (r, w')"
          by (auto simp: attempt_body_def Let_def)
        note ve = verify_size_effect[OF v]
        have f2: "fs w2 p = Some (File (sum_list chunks))" using se(4)[OF Inr] .
        have "r = Inr ReturnTrue \<longrightarrow>
           (\<exists>k n. fs w' p = Some (File k) \<and> expected_size py_int fi = Inr n \<and> (n \<le> 0 \<or> int k = n))"
          using ve(5) f2 by (auto simp: st_size_def)
        with ve g2 se show ?thesis by auto
      qed
    qed
  qed
  then show "gets w' = Suc (gets w)" and "sleeps w' = sleeps w"
    and "q \<noteq> p \<Longrightarrow> fs w' q = fs w q"
    and "is_dir w' p = is_dir w p"
    and "r = Inr ReturnTrue \<Longrightarrow>
           \<exists>k n. fs w' p = Some (File k) \<and> expected_size py_int fi = Inr n \<and> (n \<le> 0 \<or> int k = n)"
    and "r = Inr Continue \<Longrightarrow> fs w' p = None"
    by blast+
qed

lemma handle_failure_Inr:
  assumes "handle_failure ae attempt p w = Inr w'"
  shows "fs w' p = None" and "q \<noteq> p \<Longrightarrow> fs w' q = fs w q" and "gets w' = gets w"
    and "sleeps w' = sleeps w @ (if attempt < max_retries - 1 then [Sleep (2 ^ attempt)] else [])"
    and "\<not> is_dir w' p"
  using assms
  by (auto simp: handle_failure_def exists_def gets_def sleeps_def is_dir_def
      split: sum.splits if_splits dest: unlink_Inr)

lemma handle_failure_Inl:
  assumes "handle_failure ae attempt p w = Inl e"
  shows "e = OSError" and "is_dir w p \<or> cleanup_err ae"
  using assms
  by (auto simp: handle_failure_def exists_def split: sum.splits if_splits dest: unlink_Inl)


lemma attempt_body_mismatch:
  assumes "resp ae = Response code chunks True" and "200 \<le> code" and "code < 300"
    and "\<not> open_err ae" and "write_err ae = None" and "\<not> is_dir w p" and "\<not> unlink_err ae"
    and "expected_size py_int fi = Inr n" and "0 < n" and "int (sum_list chunks) \<noteq> n"
  shows "attempt_body py_int ae url p fi w =
           (Inr Continue, emit (Unlink p) ((emit (StreamGET url) w)\<lparr>fs := (fs w)(p := None)\<rparr>))"
  using assms
  by (simp add: attempt_body_def stream_to_file_def verify_size_def st_size_def Let_def unlink_def)

section \<open>The retry loop\<close>

lemma retry_loop_failing_prefix:
  assumes "\<forall>i \<in> set as. (\<forall>w0. fst (attempt_body py_int (attempts env i) url p fi w0) \<noteq> Inr ReturnTrue)
                        \<and> \<not> cleanup_err (attempts env i)"
    and "\<not> is_dir w p"
  shows "\<exists>w2. retry_loop py_int env url p fi (as @ bs) w = retry_loop py_int env url p fi bs w2
           \<and> \<not> is_dir w2 p \<and> gets w2 = gets w + length as
           \<and> (\<forall>q. q \<noteq> p \<longrightarrow> fs w2 q = fs w q)
           \<and> (as \<noteq> [] \<or> fs w p = None \<longrightarrow> fs w2 p = None)"
  using assms
proof (induction as arbitrary: w)
  case Nil
  show ?case by (rule exI[of _ w]) (use Nil in simp)
next
  case (Cons a rest)
  obtain r1 w1 where ab: "attempt_body py_int (attempts env a) url p fi w = (r1, w1)"
    by (cases "attempt_body py_int (attempts env a) url p fi w")
  note ae = attempt_body_effect[OF ab]
  have nd1: "\<not> is_dir w1 p" using ae(4) Cons.prems(2) by simp
  have "fst (attempt_body py_int (attempts env a) url p fi w) \<noteq> Inr ReturnTrue"
    using Cons.prems(1) by simp
  then have nt: "r1 \<noteq> Inr ReturnTrue" using ab by simp
  have rest: "\<forall>i \<in> set rest. (\<forall>w0. fst (attempt_body py_int (attempts env i) url p fi w0) \<noteq> Inr ReturnTrue)
                        \<and> \<not> cleanup_err (attempts env i)"
    using Cons.prems(1) by simp
  have "\<exists>wm. retry_loop py_int env url p fi ((a # rest) @ bs) w = retry_loop py_int env url p fi (rest @ bs) wm
          \<and> \<not> is_dir wm p \<and> gets wm = Suc (gets w) \<and> (\<forall>q. q \<noteq> p \<longrightarrow> fs wm q = fs w q)
          \<and> fs wm p = None"
  proof (cases r1)
    case (Inr ar)
    with nt have c: "r1 = Inr Continue" by (cases ar) simp_all
    show ?thesis
      by (rule exI[of _ w1]) (use ab c nd1 ae(1,3) ae(6)[OF c] in simp)
  next
    case (Inl e1)
    have nc: "\<not> cleanup_err (attempts env a)" using Cons.prems(1) by simp
    obtain w1' where hf: "handle_failure (attempts env a) a p w1 = Inr w1'"
    proof (cases "handle_failure (attempts env a) a p w1")
      case (Inl e')
      from handle_failure_Inl(2)[OF Inl] nd1 nc show ?thesis by simp
    next
      case (Inr x)
      then show ?thesis using that by simp
    qed
    note h = handle_failure_Inr[OF hf]
    show ?thesis
      by (rule exI[of _ w1']) (use ab Inl hf h(1,2,3,5) ae(1,3) in simp)
  qed
  then obtain wm where
    wm: "retry_loop py_int env url p fi ((a # rest) @ bs) w = retry_loop py_int env url p fi (rest @ bs) wm
          \<and> \<not> is_dir wm p \<and> gets wm = Suc (gets w) \<and> (\<forall>q. q \<noteq> p \<longrightarrow> fs wm q = fs w q)
          \<and> fs wm p = None" ..
  then have ndm: "\<not> is_dir wm p" by simp
  from Cons.IH[OF rest ndm] obtain w2 where
    w2: "retry_loop py_int env url p fi (rest @ bs) wm = retry_loop py_int env url p fi bs w2
           \<and> \<not> is_dir w2 p \<and> gets w2 = gets wm + length rest
           \<and> (\<forall>q. q \<noteq> p \<longrightarrow> fs w2 q = fs wm q)
           \<and> (rest \<noteq> [] \<or> fs wm p = None \<longrightarrow> fs w2 p = None)" ..
  show ?case
    by (rule exI[of _ w2]) (use wm w2 in simp)
qed

lemma attempt_fails_not_True:
  assumes "attempt_fails py_int ae fi"
  shows "fst (attempt_body py_int ae url p fi w) \<noteq> Inr ReturnTrue"
proof (cases "attempt_body py_int ae url p fi w")
  case (Pair r w')
  show ?thesis
  proof (cases "resp ae")
    case Raises
    then show ?thesis by (simp add: attempt_body_def Let_def)
  next
    case (Response code chunks ok)
    show ?thesis
    proof (cases "200 \<le> code \<and> code < 300")
      case False
      with Response show ?thesis by (auto simp: attempt_body_def Let_def)
    next
      case True
      obtain r2 w2 where s: "stream_to_file ae chunks ok p (emit (StreamGET url) w) = (r2, w2)"
        by (cases "stream_to_file ae chunks ok p (emit (StreamGET url) w)")
      show ?thesis
      proof (cases r2)
        case (Inl e)
        with Response True s show ?thesis by (simp add: attempt_body_def Let_def)
      next
        case (Inr u)
        from s Inr have ok: "ok" "\<not> open_err ae"
          "(case write_err ae of Some j \<Rightarrow> j < length chunks | None \<Rightarrow> False) = False"
          and f2: "fs w2 p = Some (File (sum_list chunks))"
          by (auto simp: stream_to_file_def split: if_splits option.splits)
        from assms Response True ok
        have sz: "case expected_size py_int fi of Inl e \<Rightarrow> True
                  | Inr n \<Rightarrow> 0 < n \<and> int (sum_list chunks) \<noteq> n"
          by (simp add: attempt_fails_def)
        have "fst (verify_size py_int ae p fi w2) \<noteq> Inr ReturnTrue"
          using sz f2
          by (auto simp: verify_size_def st_size_def split: sum.splits)
        with Response True s Inr show ?thesis by (simp add: attempt_body_def Let_def)
      qed
    qed
  qed
qed

lemma attempt_succeeds:
  assumes "\<not> attempt_fails py_int ae fi" and "resp ae = Response code chunks ok" and "\<not> is_dir w p"
  shows "attempt_body py_int ae url p fi w =
           (Inr ReturnTrue, (emit (StreamGET url) w)\<lparr>fs := (fs w)(p \<mapsto> File (sum_list chunks))\<rparr>)"
proof -
  from assms(1,2) have c: "200 \<le> code" "code < 300" "ok" "\<not> open_err ae"
    and wr: "\<not> (case write_err ae of Some j \<Rightarrow> j < length chunks | None \<Rightarrow> False)"
    and sz: "\<not> (case expected_size py_int fi of Inl e \<Rightarrow> True
                  | Inr n \<Rightarrow> 0 < n \<and> int (sum_list chunks) \<noteq> n)"
    by (simp_all add: attempt_fails_def)
  from sz obtain n where n: "expected_size py_int fi = Inr n" "n \<le> 0 \<or> int (sum_list chunks) = n"
    by (cases "expected_size py_int fi") auto
  have s: "stream_to_file ae chunks ok p (emit (StreamGET url) w) =
      (Inr (), (emit (StreamGET url) w)\<lparr>fs := (fs w)(p \<mapsto> File (sum_list chunks))\<rparr>)"
    using c wr assms(3) by (auto simp: stream_to_file_def split: option.splits)
  have v: "verify_size py_int ae p fi ((emit (StreamGET url) w)\<lparr>fs := (fs w)(p \<mapsto> File (sum_list chunks))\<rparr>)
      = (Inr ReturnTrue, (emit (StreamGET url) w)\<lparr>fs := (fs w)(p \<mapsto> File (sum_list chunks))\<rparr>)"
    using n by (auto simp: verify_size_def st_size_def)
  show ?thesis
    using assms(2) c s v by (simp add: attempt_body_def Let_def)
qed



section \<open>The whole fetch and the pool\<close>

lemma download_file_keys:
  assumes "fi ''url'' = Some url" and "fi ''filename'' = Some (PStr f)"
  shows "download_file py_int env fi out w =
     (case already_complete py_int fi (path_join out f) w of
        Inl e \<Rightarrow> (Inl e, w)
      | Inr True \<Rightarrow> (Inr True, w)
      | Inr False \<Rightarrow>
          (case mkdir (mkdir_err env) (dir_size env) (path_parent (path_join out f)) w of
             Inl e \<Rightarrow> (Inl e, w)
           | Inr w1 \<Rightarrow> retry_loop py_int env url (path_join out f) fi [0..<max_retries] w1))"
  using assms by (simp add: download_file_def Let_def)


lemma run_tasks_fst:
  "run_tasks py_int envs files out ord w = (cs, w') \<Longrightarrow> map fst cs = map ((!) files) ord"
proof (induction ord arbitrary: w cs w')
  case Nil
  then show ?case by simp
next
  case (Cons i rest)
  obtain r w1 where d: "download_file py_int (envs i) (files ! i) out w = (r, w1)"
    by (cases "download_file py_int (envs i) (files ! i) out w")
  obtain rs w2 where t: "run_tasks py_int envs files out rest w1 = (rs, w2)"
    by (cases "run_tasks py_int envs files out rest w1")
  from Cons.prems d t have "cs = (files ! i, r) # rs" by simp
  with Cons.IH[OF t] show ?case by simp
qed


lemma collect_counts:
  "collect cs s f = Inr (s', f') \<Longrightarrow>
     s' = s + int (length (filter succeeded cs)) \<and> f' = f + int (length (filter (\<lambda>c. \<not> succeeded c) cs))"
proof (induction cs s f rule: collect.induct)
  case (1 s f)
  then show ?case by simp
next
  case (2 fi r rest s f)
  then show ?case
    by (auto simp: succeeded_def split: sum.splits bool.splits option.splits if_splits)
qed



lemma perm_nth:
  assumes "mset ord = mset [0..<length xs]"
  shows "mset (map ((!) xs) ord) = mset xs"
proof -
  have "mset (map ((!) xs) ord) = image_mset ((!) xs) (mset ord)" by simp
  also have "\<dots> = image_mset ((!) xs) (mset [0..<length xs])"
    by (rule arg_cong[OF assms])
  also have "\<dots> = mset (map ((!) xs) [0..<length xs])" by simp
  also have "\<dots> = mset xs" by (simp add: map_nth)
  finally show ?thesis .
qed

lemma perm_set:
  assumes "mset ord = mset [0..<n]"
  shows "set ord = {..<n}" and "length ord = n"
proof -
  show "set ord = {..<n}"
    using mset_eq_setD[OF assms] by (simp add: atLeast0LessThan)
  show "length ord = n"
    using mset_eq_length[OF assms] by simp
qed




lemma failing_prefix:
  assumes "\<forall>i \<in> set as. attempt_fails py_int (attempts env i) fi \<and> \<not> cleanup_err (attempts env i)"
    and "\<not> is_dir w p"
  shows "\<exists>w2. retry_loop py_int env url p fi (as @ bs) w = retry_loop py_int env url p fi bs w2
           \<and> \<not> is_dir w2 p \<and> gets w2 = gets w + length as
           \<and> (\<forall>q. q \<noteq> p \<longrightarrow> fs w2 q = fs w q)
           \<and> (as \<noteq> [] \<or> fs w p = None \<longrightarrow> fs w2 p = None)"
proof (rule retry_loop_failing_prefix[OF _ assms(2)])
  show "\<forall>i\<in>set as. (\<forall>w0. fst (attempt_body py_int (attempts env i) url p fi w0) \<noteq> Inr ReturnTrue)
          \<and> \<not> cleanup_err (attempts env i)"
    using assms(1) attempt_fails_not_True by blast
qed

lemma attempt_body_exception_kinds:
  assumes "resp ae = Raises
           \<or> (\<exists>code chunks ok. resp ae = Response code chunks ok \<and> \<not> (200 \<le> code \<and> code < 300))"
  shows "\<exists>e. attempt_body py_int ae url p fi w = (Inl e, emit (StreamGET url) w)"
  using assms by (auto simp: attempt_body_def Let_def)

lemma retry_step_exception:
  assumes "attempt_body py_int (attempts env a) url p fi w = (Inl e, w1)"
    and "\<not> is_dir w p" and "\<not> cleanup_err (attempts env a)"
  shows "\<exists>w2. retry_loop py_int env url p fi (a # rest) w = retry_loop py_int env url p fi rest w2
           \<and> fs w2 p = None \<and> gets w2 = gets w + 1
           \<and> sleeps w2 = sleeps w @ (if a < max_retries - 1 then [Sleep (2 ^ a)] else [])"
proof -
  note ae = attempt_body_effect[OF assms(1)]
  have nd1: "\<not> is_dir w1 p" using ae(4) assms(2) by simp
  obtain w2 where hf: "handle_failure (attempts env a) a p w1 = Inr w2"
  proof (cases "handle_failure (attempts env a) a p w1")
    case (Inl e')
    from handle_failure_Inl(2)[OF Inl] nd1 assms(3) show ?thesis by simp
  next
    case (Inr x)
    then show ?thesis using that by simp
  qed
  note h = handle_failure_Inr[OF hf]
  show ?thesis
    by (rule exI[of _ w2]) (use assms(1) hf h(1,3,4) ae(1,2) in simp)
qed

lemma retry_step_mismatch:
  assumes "resp (attempts env a) = Response code chunks True" and "200 \<le> code" and "code < 300"
    and "\<not> open_err (attempts env a)" and "write_err (attempts env a) = None"
    and "\<not> unlink_err (attempts env a)"
    and "expected_size py_int fi = Inr n" and "0 < n" and "int (sum_list chunks) \<noteq> n"
    and "\<not> is_dir w p"
  shows "\<exists>w2. retry_loop py_int env url p fi (a # rest) w = retry_loop py_int env url p fi rest w2
           \<and> fs w2 p = None \<and> gets w2 = gets w + 1 \<and> sleeps w2 = sleeps w"
proof -
  let ?w2 = "emit (Unlink p) ((emit (StreamGET url) w)\<lparr>fs := (fs w)(p := None)\<rparr>)"
  have ab: "attempt_body py_int (attempts env a) url p fi w = (Inr Continue, ?w2)"
    using attempt_body_mismatch[OF assms(1,2,3,4,5) assms(10) assms(6,7,8,9)] .
  show ?thesis
    by (rule exI[of _ ?w2]) (use ab in \<open>simp add: gets_def sleeps_def\<close>)
qed











lemma pair_fst: "fst x = a \<Longrightarrow> x = (a, snd x)"
  by (simp add: prod_eq_iff)








lemma completes_cases:
  assumes "completes ae w p m"
  shows "\<exists>code chunks. resp ae = Response code chunks True \<and> 200 \<le> code \<and> code < 300
           \<and> sum_list chunks = m \<and> \<not> open_err ae \<and> write_err ae = None \<and> \<not> is_dir w p"
  using assms by (cases "resp ae") (simp_all add: completes_def)





section \<open>Facts about the concrete inputs\<close>

lemma ex_paths:
  "path_join ''data'' ''a.csv.gz'' = ''data/a.csv.gz''"
  "path_parent ''data/a.csv.gz'' = ''data''"
  "path_join ''data'' [] = ''data''"
  "path_parent ''data'' = ''.''"
  by code_simp+

lemma ex_a_keys:
  "ex_a ''url'' = Some (PStr ''https://host/a.csv.gz'')"
  "ex_a ''filename'' = Some (PStr ''a.csv.gz'')"
  "expected_size int_on_integers ex_a = Inr 5"
  "''data/a.csv.gz'' = path_join ''data'' ''a.csv.gz''"
  by (simp_all add: ex_a_def ex_file_def expected_size_def int_on_integers_def ex_paths)

lemma dir_world_facts:
  "already_complete int_on_integers ex_a ''data/a.csv.gz'' dir_world = Inr False"
  "mkdir (mkdir_err (ex_fetch rs)) (dir_size (ex_fetch rs)) (path_parent ''data/a.csv.gz'') dir_world
     = Inr dir_world"
  "\<not> is_dir dir_world ''data/a.csv.gz''"
  by (simp_all add: already_complete_def dir_world_def mkdir_def ex_fetch_def ex_paths is_dir_def)


section \<open>The claims\<close>

text \<open>
  Claim C1: for every run of the engine over a non-empty list of descriptions that
  completes (returns its statistics), \<open>total_files\<close> is the sum of \<open>downloaded\<close> and
  \<open>failed\<close> and is the number of descriptions; the finished tasks are the descriptions,
  each once, and every one of them is counted in exactly one of the two counters:
  \<open>downloaded\<close> counts the tasks that returned \<open>True\<close>, \<open>failed\<close> all the others.
\<close>

theorem download_data_accounting:
  assumes "all_files \<noteq> []"
    and "mset (order env) = mset [0..<length all_files]"
    and "download_data py_int parallel_downloads env all_files output_path w = (Inr st, w')"
  shows "total_files st = downloaded st + failed st
       \<and> total_files st = int (length all_files)
       \<and> mset (map fst (task_outcomes py_int env all_files output_path w)) = mset all_files
       \<and> downloaded st = int (length (filter succeeded (task_outcomes py_int env all_files output_path w)))
       \<and> failed st
           = int (length (filter (\<lambda>c. \<not> succeeded c) (task_outcomes py_int env all_files output_path w)))"
proof -
  have nz: "\<not> parallel_downloads \<le> 0"
    using assms(1,3)
    by (cases "mkdir (out_mkdir_err env) (out_dir_size env) output_path w")
       (auto simp: download_data_def split: if_splits)
  obtain w1 where
    mk: "mkdir (out_mkdir_err env) (out_dir_size env) output_path w = Inr w1"
    using assms(1,3)
    by (cases "mkdir (out_mkdir_err env) (out_dir_size env) output_path w")
       (simp_all add: download_data_def)
  obtain completed w2 where
    rt: "run_tasks py_int (fetch_envs env) all_files output_path (order env) w1 = (completed, w2)"
    by (cases "run_tasks py_int (fetch_envs env) all_files output_path (order env) w1")
  have tk: "task_outcomes py_int env all_files output_path w = completed"
    using mk rt by (simp add: task_outcomes_def)
  have dd: "(case collect completed 0 0 of
              Inl e \<Rightarrow> (Inl e, w2)
            | Inr (successful, nfailed) \<Rightarrow>
                (Inr \<lparr>total_files = int (length all_files),
                      downloaded = successful, failed = nfailed\<rparr>, w2)) = (Inr st, w')"
    using assms(1,3) mk rt nz by (simp add: download_data_def)
  obtain s f where
    co: "collect completed 0 0 = Inr (s, f)"
    and st: "st = \<lparr>total_files = int (length all_files), downloaded = s, failed = f\<rparr>"
  proof (cases "collect completed 0 0")
    case (Inl e)
    with dd show ?thesis by simp
  next
    case (Inr sf)
    with dd that show ?thesis by (cases sf) auto
  qed
  from collect_counts[OF co] have
    s: "s = int (length (filter succeeded completed))"
    and f: "f = int (length (filter (\<lambda>c. \<not> succeeded c) completed))" by simp_all
  have fs: "map fst completed = map ((!) all_files) (order env)"
    using run_tasks_fst[OF rt] .
  then have ms: "mset (map fst completed) = mset all_files"
    using perm_nth[OF assms(2)] by simp
  have "length completed = length all_files"
    using fs perm_set(2)[OF assms(2)] by (metis length_map)
  moreover have "length (filter succeeded completed) + length (filter (\<lambda>c. \<not> succeeded c) completed)
      = length completed"
    by (rule sum_length_filter_compl)
  ultimately have tot: "int (length all_files) = s + f" using s f by simp
  show ?thesis
    using st tot tk ms s f by simp
qed

theorem download_data_accounting_witness:
  "ex_files \<noteq> []
   \<and> mset (order ex_env) = mset [0..<length ex_files]
   \<and> download_data int_on_integers 5 ex_env ex_files ''data'' empty_world
       = (Inr \<lparr>total_files = 2, downloaded = 1, failed = 1\<rparr>,
          snd (download_data int_on_integers 5 ex_env ex_files ''data'' empty_world))
   \<and> (2 :: int) = 1 + 1
   \<and> (2 :: int) = int (length ex_files)
   \<and> mset (map fst (task_outcomes int_on_integers ex_env ex_files ''data'' empty_world)) = mset ex_files
   \<and> (1 :: int) = int (length (filter succeeded (task_outcomes int_on_integers ex_env ex_files ''data'' empty_world)))
   \<and> (1 :: int)
       = int (length (filter (\<lambda>c. \<not> succeeded c)
                (task_outcomes int_on_integers ex_env ex_files ''data'' empty_world)))"
proof -
  have h1: "ex_files \<noteq> []" by (simp add: ex_files_def)
  have h2: "mset (order ex_env) = mset [0..<length ex_files]"
    by (simp add: ex_env_def ex_engine_def ex_files_def upt_rec_numeral)
  have "fst (download_data int_on_integers 5 ex_env ex_files ''data'' empty_world)
      = Inr \<lparr>total_files = 2, downloaded = 1, failed = 1\<rparr>"
    by code_simp
  then have h3: "download_data int_on_integers 5 ex_env ex_files ''data'' empty_world
       = (Inr \<lparr>total_files = 2, downloaded = 1, failed = 1\<rparr>,
          snd (download_data int_on_integers 5 ex_env ex_files ''data'' empty_world))"
    by (rule pair_fst)
  from download_data_accounting[OF h1 h2 h3] h1 h2 h3 show ?thesis by simp
qed







text \<open>
  Claim C5, as stated, fails when the handler cannot clean up. First input: a file of
  two bytes from an earlier run stands at the target path, every request is answered
  with status 404, and the \<open>unlink\<close> of the handler (line 266) is refused; every attempt
  fails, but only one request is made and the fetch raises \<open>OSError\<close> instead of
  returning \<open>False\<close>. Second input: the file name is empty, so that the target path is
  the output directory itself, and every request raises; again one request is made
  and the fetch raises.
\<close>

theorem retries_not_exhausted_counterexample:
  "list_all (\<lambda>i. attempt_fails int_on_integers (attempts not_found_no_cleanup i) ex_a)
     [0..<max_retries]
   \<and> fst (download_file int_on_integers not_found_no_cleanup ex_a ''data'' stale_world)
        = Inl OSError
   \<and> gets (snd (download_file int_on_integers not_found_no_cleanup ex_a ''data'' stale_world)) = 1
   \<and> list_all (\<lambda>i. attempt_fails int_on_integers (attempts (ex_fetch (\<lambda>k. Raises)) i) empty_name)
        [0..<max_retries]
   \<and> fst (download_file int_on_integers (ex_fetch (\<lambda>k. Raises)) empty_name ''data'' dir_world)
        = Inl OSError
   \<and> gets (snd (download_file int_on_integers (ex_fetch (\<lambda>k. Raises)) empty_name ''data''
                    dir_world)) = 1"
  by code_simp

text \<open>
  Claim C5, amended: \<open>max_retries\<close> is 3. Take a description with a URL and a string file
  name whose fetch reaches the retry loop (the skip test answers no and the parent
  directory is there or can be made) with a target path that is not a directory. If
  every attempt fails and no \<open>unlink\<close> of the handler is refused, the client is called
  exactly \<open>max_retries\<close> times and the fetch returns \<open>False\<close>. If the attempts before
  attempt \<open>k\<close> fail, with no \<open>unlink\<close> of the handler refused, and attempt \<open>k\<close> completes
  with a matching or unknown size, the fetch returns \<open>True\<close> after \<open>k + 1\<close> calls of the
  client and the file at the target path holds the bytes received.
\<close>

theorem retries_exhausted_or_success:
  assumes "file_info ''url'' = Some url" and "file_info ''filename'' = Some (PStr filename)"
    and "p = path_join output_dir filename"
    and "already_complete py_int file_info p w = Inr False"
    and "mkdir (mkdir_err env) (dir_size env) (path_parent p) w = Inr w1"
    and "\<not> is_dir w1 p"
  shows "max_retries = 3
       \<and> ((\<forall>i<max_retries. attempt_fails py_int (attempts env i) file_info
                            \<and> \<not> cleanup_err (attempts env i))
           \<longrightarrow> (\<exists>w'. download_file py_int env file_info output_dir w = (Inr False, w')
                     \<and> gets w' = gets w + max_retries))
       \<and> (k < max_retries
            \<and> (\<forall>i<k. attempt_fails py_int (attempts env i) file_info \<and> \<not> cleanup_err (attempts env i))
            \<and> \<not> attempt_fails py_int (attempts env k) file_info
            \<and> resp (attempts env k) = Response code chunks ok
           \<longrightarrow> (\<exists>w'. download_file py_int env file_info output_dir w = (Inr True, w')
                     \<and> fs w' p = Some (File (sum_list chunks))
                     \<and> gets w' = gets w + k + 1))"
proof -
  have dk: "download_file py_int env file_info output_dir w
      = retry_loop py_int env url p file_info [0..<max_retries] w1"
    using download_file_keys[OF assms(1,2), of py_int env output_dir w] assms(3,4,5) by simp
  have g1: "gets w1 = gets w" using mkdir_Inr(6)[OF assms(5)] .
  have p0: "max_retries = 3" by (simp add: max_retries_def)
  have p1: "(\<forall>i<max_retries. attempt_fails py_int (attempts env i) file_info
                            \<and> \<not> cleanup_err (attempts env i))
           \<longrightarrow> (\<exists>w'. download_file py_int env file_info output_dir w = (Inr False, w')
                     \<and> gets w' = gets w + max_retries)"
  proof (rule impI)
    assume a: "\<forall>i<max_retries. attempt_fails py_int (attempts env i) file_info
                            \<and> \<not> cleanup_err (attempts env i)"
    then have "\<forall>i \<in> set [0..<max_retries]. attempt_fails py_int (attempts env i) file_info
                    \<and> \<not> cleanup_err (attempts env i)" by simp
    from failing_prefix[OF this assms(6), of url "[]"] obtain w2 where
      w2: "retry_loop py_int env url p file_info ([0..<max_retries] @ []) w1
             = retry_loop py_int env url p file_info [] w2
           \<and> \<not> is_dir w2 p \<and> gets w2 = gets w1 + length [0..<max_retries]
           \<and> (\<forall>q. q \<noteq> p \<longrightarrow> fs w2 q = fs w1 q)
           \<and> ([0..<max_retries] \<noteq> [] \<or> fs w1 p = None \<longrightarrow> fs w2 p = None)" ..
    show "\<exists>w'. download_file py_int env file_info output_dir w = (Inr False, w')
                     \<and> gets w' = gets w + max_retries"
      by (rule exI[of _ w2]) (use w2 dk g1 in simp)
  qed
  have p2: "k < max_retries
            \<and> (\<forall>i<k. attempt_fails py_int (attempts env i) file_info \<and> \<not> cleanup_err (attempts env i))
            \<and> \<not> attempt_fails py_int (attempts env k) file_info
            \<and> resp (attempts env k) = Response code chunks ok
           \<longrightarrow> (\<exists>w'. download_file py_int env file_info output_dir w = (Inr True, w')
                     \<and> fs w' p = Some (File (sum_list chunks))
                     \<and> gets w' = gets w + k + 1)"
  proof (rule impI)
    assume a: "k < max_retries
            \<and> (\<forall>i<k. attempt_fails py_int (attempts env i) file_info \<and> \<not> cleanup_err (attempts env i))
            \<and> \<not> attempt_fails py_int (attempts env k) file_info
            \<and> resp (attempts env k) = Response code chunks ok"
    then have k: "k < max_retries" and ok: "\<not> attempt_fails py_int (attempts env k) file_info"
      and rk: "resp (attempts env k) = Response code chunks ok" by simp_all
    from a have "\<forall>i \<in> set [0..<k]. attempt_fails py_int (attempts env i) file_info
                    \<and> \<not> cleanup_err (attempts env i)" by simp
    from failing_prefix[OF this assms(6), of url "k # [Suc k..<max_retries]"] obtain w2 where
      w2: "retry_loop py_int env url p file_info ([0..<k] @ k # [Suc k..<max_retries]) w1
             = retry_loop py_int env url p file_info (k # [Suc k..<max_retries]) w2
           \<and> \<not> is_dir w2 p \<and> gets w2 = gets w1 + length [0..<k]
           \<and> (\<forall>q. q \<noteq> p \<longrightarrow> fs w2 q = fs w1 q)
           \<and> ([0..<k] \<noteq> [] \<or> fs w1 p = None \<longrightarrow> fs w2 p = None)" ..
    have "[0..<k + (max_retries - k)] = [0..<k] @ [k..<k + (max_retries - k)]"
      by (rule upt_add_eq_append) simp
    then have sp: "[0..<max_retries] = [0..<k] @ k # [Suc k..<max_retries]"
      using k by (simp add: upt_conv_Cons)
    let ?w3 = "(emit (StreamGET url) w2)\<lparr>fs := (fs w2)(p \<mapsto> File (sum_list chunks))\<rparr>"
    have ab: "attempt_body py_int (attempts env k) url p file_info w2 = (Inr ReturnTrue, ?w3)"
      using attempt_succeeds[OF ok rk, of w2 p url] w2 by simp
    have "download_file py_int env file_info output_dir w = (Inr True, ?w3)"
      using dk sp w2 ab by simp
    moreover have "fs ?w3 p = Some (File (sum_list chunks))" by simp
    moreover have "gets ?w3 = gets w + k + 1"
      using w2 g1 by (simp add: gets_def)
    ultimately show "\<exists>w'. download_file py_int env file_info output_dir w = (Inr True, w')
                     \<and> fs w' p = Some (File (sum_list chunks))
                     \<and> gets w' = gets w + k + 1"
      by (intro exI[of _ ?w3] conjI)
  qed
  from p0 p1 p2 show ?thesis by (intro conjI)
qed

theorem retries_exhausted_or_success_witness:
  "ex_a ''url'' = Some (PStr ''https://host/a.csv.gz'')
   \<and> ex_a ''filename'' = Some (PStr ''a.csv.gz'')
   \<and> ''data/a.csv.gz'' = path_join ''data'' ''a.csv.gz''
   \<and> already_complete int_on_integers ex_a ''data/a.csv.gz'' dir_world = Inr False
   \<and> mkdir (mkdir_err (ex_fetch (\<lambda>k. Raises))) (dir_size (ex_fetch (\<lambda>k. Raises)))
        (path_parent ''data/a.csv.gz'') dir_world = Inr dir_world
   \<and> \<not> is_dir dir_world ''data/a.csv.gz''
   \<and> list_all (\<lambda>i. attempt_fails int_on_integers (attempts (ex_fetch (\<lambda>k. Raises)) i) ex_a
                  \<and> \<not> cleanup_err (attempts (ex_fetch (\<lambda>k. Raises)) i)) [0..<max_retries]
   \<and> (\<exists>w'. download_file int_on_integers (ex_fetch (\<lambda>k. Raises)) ex_a ''data'' dir_world = (Inr False, w')
          \<and> gets w' = gets dir_world + max_retries)
   \<and> 2 < max_retries
   \<and> list_all (\<lambda>i. attempt_fails int_on_integers (attempts (ex_fetch fail_twice) i) ex_a
                  \<and> \<not> cleanup_err (attempts (ex_fetch fail_twice) i)) [0..<2]
   \<and> \<not> attempt_fails int_on_integers (attempts (ex_fetch fail_twice) 2) ex_a
   \<and> resp (attempts (ex_fetch fail_twice) 2) = Response 200 [5] True
   \<and> (\<exists>w'. download_file int_on_integers (ex_fetch fail_twice) ex_a ''data'' dir_world = (Inr True, w')
          \<and> fs w' ''data/a.csv.gz'' = Some (File (sum_list [5]))
          \<and> gets w' = gets dir_world + 2 + 1)"
proof -
  let ?e1 = "ex_fetch (\<lambda>k. Raises)"
  let ?e2 = "ex_fetch fail_twice"
  have a1: "\<forall>i<max_retries. attempt_fails int_on_integers (attempts ?e1 i) ex_a \<and> \<not> cleanup_err (attempts ?e1 i)"
    by (simp add: attempt_fails_def ex_fetch_def ex_attempt_def)
  have a2: "2 < max_retries"
    "\<forall>i<2. attempt_fails int_on_integers (attempts ?e2 i) ex_a \<and> \<not> cleanup_err (attempts ?e2 i)"
    "\<not> attempt_fails int_on_integers (attempts ?e2 2) ex_a"
    "resp (attempts ?e2 2) = Response 200 [5] True"
    by (simp_all add: attempt_fails_def ex_fetch_def ex_attempt_def fail_twice_def max_retries_def
        ex_a_keys(3))
  note t1 = retries_exhausted_or_success[OF ex_a_keys(1,2,4) dir_world_facts(1)
      dir_world_facts(2)[of "\<lambda>k. Raises"] dir_world_facts(3), THEN conjunct2]
  note t2 = retries_exhausted_or_success[OF ex_a_keys(1,2,4) dir_world_facts(1)
      dir_world_facts(2)[of fail_twice] dir_world_facts(3),
      where k = 2 and code = 200 and chunks = "[5]" and ok = True, THEN conjunct2]
  from t1 a1 have c1: "\<exists>w'. download_file int_on_integers ?e1 ex_a ''data'' dir_world = (Inr False, w')
          \<and> gets w' = gets dir_world + max_retries" by simp
  from t2 a2 have c2: "\<exists>w'. download_file int_on_integers ?e2 ex_a ''data'' dir_world = (Inr True, w')
          \<and> fs w' ''data/a.csv.gz'' = Some (File (sum_list [5]))
          \<and> gets w' = gets dir_world + 2 + 1" by simp
  show ?thesis
    using ex_a_keys(1,2,4) dir_world_facts(1,3) dir_world_facts(2)[of "\<lambda>k. Raises"] a1 a2 c1 c2
    by (simp add: list_all_iff)
qed

text \<open>
  Claim C6, as stated, fails for a size mismatch: the file is deleted, but \<open>continue\<close>
  starts the next attempt at once. Here all three attempts deliver 3 of 5 expected
  bytes; the trace has three requests and three deletions and no sleep, although
  attempts remained after the first and the second.
\<close>

theorem size_mismatch_no_backoff_counterexample:
  "fst (download_file int_on_integers (ex_fetch (\<lambda>k. Response 200 [3] True)) ex_a ''data''
          dir_world) = Inr False
   \<and> events (snd (download_file int_on_integers (ex_fetch (\<lambda>k. Response 200 [3] True)) ex_a
                     ''data'' dir_world))
       = [StreamGET (PStr ''https://host/a.csv.gz''), Unlink ''data/a.csv.gz'',
          StreamGET (PStr ''https://host/a.csv.gz''), Unlink ''data/a.csv.gz'',
          StreamGET (PStr ''https://host/a.csv.gz''), Unlink ''data/a.csv.gz'']"
  by code_simp

text \<open>
  Claim C6, amended: a transport error and an HTTP error status make the attempt end
  in an exception. For every attempt that ends in an exception, on a target path that
  is not a directory and with the \<open>unlink\<close> of the handler (line 266) not refused,
  whatever is at the target path is deleted and, if attempts remain
  (\<open>attempt < max_retries - 1\<close>), the fetcher sleeps \<open>2 ^ attempt\<close> seconds, and does not
  sleep otherwise, before the loop goes on with the remaining attempts. For every
  attempt whose download completes with a number of bytes different from a known
  positive expected size, with the \<open>unlink\<close> after the size check (line 257) not
  refused, the file is deleted and the loop goes on with the remaining attempts
  without a sleep.
\<close>

theorem failed_attempt_cleanup_and_backoff:
  "((resp (attempts env attempt) = Raises
       \<or> (\<exists>code chunks ok. resp (attempts env attempt) = Response code chunks ok
              \<and> \<not> (200 \<le> code \<and> code < 300)))
     \<longrightarrow> (\<exists>e w1. attempt_body py_int (attempts env attempt) url p file_info w = (Inl e, w1)))
   \<and> ((\<exists>e w1. attempt_body py_int (attempts env attempt) url p file_info w = (Inl e, w1))
        \<and> \<not> is_dir w p \<and> \<not> cleanup_err (attempts env attempt)
     \<longrightarrow> (\<exists>w2. retry_loop py_int env url p file_info (attempt # rest) w
                   = retry_loop py_int env url p file_info rest w2
               \<and> fs w2 p = None
               \<and> sleeps w2 = sleeps w
                    @ (if attempt < max_retries - 1 then [Sleep (2 ^ attempt)] else [])))
   \<and> (completes (attempts env attempt) w p m
        \<and> expected_size py_int file_info = Inr n \<and> 0 < n \<and> int m \<noteq> n
        \<and> \<not> unlink_err (attempts env attempt)
     \<longrightarrow> (\<exists>w2. retry_loop py_int env url p file_info (attempt # rest) w
                   = retry_loop py_int env url p file_info rest w2
               \<and> fs w2 p = None
               \<and> sleeps w2 = sleeps w))"
proof -
  have p1: "(resp (attempts env attempt) = Raises
            \<or> (\<exists>code chunks ok. resp (attempts env attempt) = Response code chunks ok
                   \<and> \<not> (200 \<le> code \<and> code < 300)))
          \<longrightarrow> (\<exists>e w1. attempt_body py_int (attempts env attempt) url p file_info w = (Inl e, w1))"
    using attempt_body_exception_kinds[of "attempts env attempt" py_int url p file_info w]
    by blast
  have p2: "(\<exists>e w1. attempt_body py_int (attempts env attempt) url p file_info w = (Inl e, w1))
        \<and> \<not> is_dir w p \<and> \<not> cleanup_err (attempts env attempt)
     \<longrightarrow> (\<exists>w2. retry_loop py_int env url p file_info (attempt # rest) w
                   = retry_loop py_int env url p file_info rest w2
               \<and> fs w2 p = None
               \<and> sleeps w2 = sleeps w
                    @ (if attempt < max_retries - 1 then [Sleep (2 ^ attempt)] else []))"
  proof (rule impI)
    assume a: "(\<exists>e w1. attempt_body py_int (attempts env attempt) url p file_info w = (Inl e, w1))
        \<and> \<not> is_dir w p \<and> \<not> cleanup_err (attempts env attempt)"
    then have nd: "\<not> is_dir w p" and nc: "\<not> cleanup_err (attempts env attempt)" by simp_all
    from a obtain e w1
      where ab: "attempt_body py_int (attempts env attempt) url p file_info w = (Inl e, w1)"
      by blast
    from retry_step_exception[OF ab nd nc, of rest] obtain w2 where
      w2: "retry_loop py_int env url p file_info (attempt # rest) w
            = retry_loop py_int env url p file_info rest w2
           \<and> fs w2 p = None \<and> gets w2 = gets w + 1
           \<and> sleeps w2 = sleeps w @ (if attempt < max_retries - 1 then [Sleep (2 ^ attempt)] else [])" ..
    show "\<exists>w2. retry_loop py_int env url p file_info (attempt # rest) w
                        = retry_loop py_int env url p file_info rest w2
                    \<and> fs w2 p = None
                    \<and> sleeps w2 = sleeps w
                         @ (if attempt < max_retries - 1 then [Sleep (2 ^ attempt)] else [])"
      by (rule exI[of _ w2]) (use w2 in simp)
  qed
  have p3: "completes (attempts env attempt) w p m
        \<and> expected_size py_int file_info = Inr n \<and> 0 < n \<and> int m \<noteq> n
        \<and> \<not> unlink_err (attempts env attempt)
     \<longrightarrow> (\<exists>w2. retry_loop py_int env url p file_info (attempt # rest) w
                   = retry_loop py_int env url p file_info rest w2
               \<and> fs w2 p = None
               \<and> sleeps w2 = sleeps w)"
  proof (rule impI)
    assume a: "completes (attempts env attempt) w p m
        \<and> expected_size py_int file_info = Inr n \<and> 0 < n \<and> int m \<noteq> n
        \<and> \<not> unlink_err (attempts env attempt)"
    then have cm: "completes (attempts env attempt) w p m"
      and es: "expected_size py_int file_info = Inr n" and n0: "0 < n" and mn: "int m \<noteq> n"
      and nu: "\<not> unlink_err (attempts env attempt)" by simp_all
    from completes_cases[OF cm] obtain code chunks where
      c: "resp (attempts env attempt) = Response code chunks True" "200 \<le> code" "code < 300"
         "sum_list chunks = m" "\<not> open_err (attempts env attempt)"
         "write_err (attempts env attempt) = None" "\<not> is_dir w p" by blast
    have ne: "int (sum_list chunks) \<noteq> n" using c(4) mn by simp
    from retry_step_mismatch[OF c(1,2,3,5,6) nu es n0 ne c(7), of url rest]
    obtain w2 where w2: "retry_loop py_int env url p file_info (attempt # rest) w
                = retry_loop py_int env url p file_info rest w2
           \<and> fs w2 p = None \<and> gets w2 = gets w + 1 \<and> sleeps w2 = sleeps w" ..
    show "\<exists>w2. retry_loop py_int env url p file_info (attempt # rest) w
                        = retry_loop py_int env url p file_info rest w2
                    \<and> fs w2 p = None \<and> sleeps w2 = sleeps w"
      by (rule exI[of _ w2]) (use w2 in simp)
  qed
  from p1 p2 p3 show ?thesis by (intro conjI)
qed

theorem failed_attempt_cleanup_and_backoff_witness:
  "resp (attempts not_found 0) = Response 404 [] True
   \<and> (\<exists>e w1. attempt_body int_on_integers (attempts not_found 0) (PStr ''https://host/a.csv.gz'')
                 ''data/a.csv.gz'' ex_a stale_world = (Inl e, w1))
   \<and> \<not> is_dir stale_world ''data/a.csv.gz''
   \<and> \<not> cleanup_err (attempts not_found 0)
   \<and> (\<exists>w2. retry_loop int_on_integers not_found (PStr ''https://host/a.csv.gz'')
                ''data/a.csv.gz'' ex_a [0, 1, 2] stale_world
              = retry_loop int_on_integers not_found (PStr ''https://host/a.csv.gz'')
                  ''data/a.csv.gz'' ex_a [1, 2] w2
          \<and> fs w2 ''data/a.csv.gz'' = None
          \<and> sleeps w2 = sleeps stale_world @ [Sleep (2 ^ 0)])
   \<and> \<not> cleanup_err (attempts not_found 2)
   \<and> (\<exists>w2. retry_loop int_on_integers not_found (PStr ''https://host/a.csv.gz'')
                ''data/a.csv.gz'' ex_a [2] stale_world
              = retry_loop int_on_integers not_found (PStr ''https://host/a.csv.gz'')
                  ''data/a.csv.gz'' ex_a [] w2
          \<and> fs w2 ''data/a.csv.gz'' = None
          \<and> sleeps w2 = sleeps stale_world @ [])
   \<and> completes (attempts (ex_fetch (\<lambda>k. Response 200 [3] True)) 0) dir_world ''data/a.csv.gz'' 3
   \<and> expected_size int_on_integers ex_a = Inr 5 \<and> (0 :: int) < 5 \<and> int 3 \<noteq> 5
   \<and> \<not> unlink_err (attempts (ex_fetch (\<lambda>k. Response 200 [3] True)) 0)
   \<and> (\<exists>w2. retry_loop int_on_integers (ex_fetch (\<lambda>k. Response 200 [3] True))
                (PStr ''https://host/a.csv.gz'') ''data/a.csv.gz'' ex_a [0, 1, 2] dir_world
              = retry_loop int_on_integers (ex_fetch (\<lambda>k. Response 200 [3] True))
                  (PStr ''https://host/a.csv.gz'') ''data/a.csv.gz'' ex_a [1, 2] w2
          \<and> fs w2 ''data/a.csv.gz'' = None
          \<and> sleeps w2 = sleeps dir_world)"
proof -
  let ?e2 = "ex_fetch (\<lambda>k. Response 200 [3] True)"
  let ?u = "PStr ''https://host/a.csv.gz''"
  have h1: "\<not> is_dir stale_world ''data/a.csv.gz''"
    by (simp add: is_dir_def stale_world_def)
  have h2: "\<not> cleanup_err (attempts not_found 0)" "\<not> cleanup_err (attempts not_found 2)"
    by (simp_all add: not_found_def ex_fetch_def ex_attempt_def)
  have a1: "resp (attempts not_found 0) = Response 404 [] True"
    "resp (attempts not_found 2) = Response 404 [] True"
    by (simp_all add: not_found_def ex_fetch_def ex_attempt_def)
  have a2: "completes (attempts ?e2 0) dir_world ''data/a.csv.gz'' 3"
    "(0 :: int) < 5" "int 3 \<noteq> 5" "\<not> unlink_err (attempts ?e2 0)"
    by (simp_all add: completes_def ex_fetch_def ex_attempt_def is_dir_def dir_world_def)
  have m: "0 < max_retries - 1" "\<not> 2 < max_retries - 1" by (simp_all add: max_retries_def)
  note t = failed_attempt_cleanup_and_backoff[where url = ?u and file_info = ex_a
      and p = "''data/a.csv.gz''" and py_int = int_on_integers]
  note t1 = t[where env = not_found and attempt = 0 and w = stale_world and rest = "[1, 2]"]
  note t2 = t[where env = not_found and attempt = 2 and w = stale_world and rest = "[]"]
  note t3 = t[where env = ?e2 and attempt = 0 and w = dir_world and rest = "[1, 2]" and m = 3
      and n = 5, THEN conjunct2, THEN conjunct2]
  have k1: "resp (attempts not_found 0) = Raises
       \<or> (\<exists>code chunks ok. resp (attempts not_found 0) = Response code chunks ok
              \<and> \<not> (200 \<le> code \<and> code < 300))"
    using a1(1) by (intro disjI2 exI[of _ 404] exI[of _ "[]"] exI[of _ True]) simp
  have k2: "resp (attempts not_found 2) = Raises
       \<or> (\<exists>code chunks ok. resp (attempts not_found 2) = Response code chunks ok
              \<and> \<not> (200 \<le> code \<and> code < 300))"
    using a1(2) by (intro disjI2 exI[of _ 404] exI[of _ "[]"] exI[of _ True]) simp
  from t1[THEN conjunct1] k1
  have c1: "\<exists>e w1. attempt_body int_on_integers (attempts not_found 0) ?u ''data/a.csv.gz'' ex_a
      stale_world = (Inl e, w1)" by blast
  from t2[THEN conjunct1] k2
  have c1': "\<exists>e w1. attempt_body int_on_integers (attempts not_found 2) ?u ''data/a.csv.gz'' ex_a
      stale_world = (Inl e, w1)" by blast
  from t1[THEN conjunct2, THEN conjunct1] c1 h1 h2(1) m(1)
  have c2: "\<exists>w2. retry_loop int_on_integers not_found ?u ''data/a.csv.gz'' ex_a [0, 1, 2] stale_world
              = retry_loop int_on_integers not_found ?u ''data/a.csv.gz'' ex_a [1, 2] w2
          \<and> fs w2 ''data/a.csv.gz'' = None
          \<and> sleeps w2 = sleeps stale_world @ [Sleep (2 ^ 0)]" by simp
  from t2[THEN conjunct2, THEN conjunct1] c1' h1 h2(2) m(2)
  have c3: "\<exists>w2. retry_loop int_on_integers not_found ?u ''data/a.csv.gz'' ex_a [2] stale_world
              = retry_loop int_on_integers not_found ?u ''data/a.csv.gz'' ex_a [] w2
          \<and> fs w2 ''data/a.csv.gz'' = None
          \<and> sleeps w2 = sleeps stale_world @ []" by simp
  from t3 a2 ex_a_keys(3)
  have c4: "\<exists>w2. retry_loop int_on_integers ?e2 ?u ''data/a.csv.gz'' ex_a [0, 1, 2] dir_world
              = retry_loop int_on_integers ?e2 ?u ''data/a.csv.gz'' ex_a [1, 2] w2
          \<and> fs w2 ''data/a.csv.gz'' = None
          \<and> sleeps w2 = sleeps dir_world" by simp
  from h1 h2 a1(1) a2 ex_a_keys(3) c1 c2 c3 c4 show ?thesis by (intro conjI)
qed







text \<open>
  Claim C10, as stated, fails at the end of the \<open>datetime\<close> range: for the valid dates
  9999-12-31 to 9999-12-31 the first window is built, and the step to the next day,
  \<open>current_end + timedelta(days=1)\<close>, raises \<open>OverflowError\<close>, so no list is returned.
\<close>

theorem split_date_range_overflow_counterexample:
  "valid_date 3652059 \<and> (3652059 :: int) \<le> 3652059
   \<and> split_date_range 3652059 3652059 = Inl OverflowError"
  by (simp add: split_date_range_def valid_date_def max_ordinal_def add_days_def
      split_loop.simps[of 3652059 3652059])

text \<open>
  Claim C10, amended: for every pair of valid dates with \<open>start_date \<le> end_date\<close>, the
  splitter returns a list exactly when its date arithmetic stays inside the range of
  \<open>datetime\<close>, that is, when \<open>end_date\<close> is before 9999-12-31 and the start of the last
  window (\<open>start_date\<close> plus the largest multiple of seven days that does not go beyond
  \<open>end_date\<close>) is no later than 9999-12-25; otherwise it raises \<open>OverflowError\<close>. The
  list it returns is a non-empty list of windows in chronological order; the first
  window starts at \<open>start_date\<close>, the last ends at \<open>end_date\<close>, each window has at most
  7 days, each window starts the day after the one before ends, and the days of the
  windows, put one after the other, are exactly the days from \<open>start_date\<close> to
  \<open>end_date\<close>, each once.
\<close>

theorem split_date_range_covers:
  assumes "valid_date start" and "valid_date end" and "start \<le> end"
  shows "if end < max_ordinal \<and> last_start start end + 6 \<le> max_ordinal
         then \<exists>chunks. split_date_range start end = Inr chunks
           \<and> chunks \<noteq> []
           \<and> fst (hd chunks) = start
           \<and> snd (last chunks) = end
           \<and> (\<forall>(a, b) \<in> set chunks. a \<le> b \<and> b - a + 1 \<le> 7)
           \<and> (\<forall>i. Suc i < length chunks \<longrightarrow> fst (chunks ! Suc i) = snd (chunks ! i) + 1)
           \<and> concat (map (\<lambda>(a, b). [a..b]) chunks) = [start..end]
         else split_date_range start end = Inl OverflowError"
proof (cases "end < max_ordinal \<and> last_start start end + 6 \<le> max_ordinal")
  case False
  from assms have p: "1 \<le> start" "end \<le> max_ordinal" by (simp_all add: valid_date_def)
  from split_loop_exact[OF p(1) assms(3) p(2), of "[]"] False
  have "split_date_range start end = Inl OverflowError"
    by (simp add: split_date_range_def)
  with False show ?thesis by simp
next
  case True
  from assms have p: "1 \<le> start" "end \<le> max_ordinal" by (simp_all add: valid_date_def)
  from split_loop_exact[OF p(1) assms(3) p(2), of "[]"] True
  have "\<exists>ws. split_loop start end [] = Inr ([] @ ws) \<and> tiles start end ws" by simp
  then obtain ws
    where r: "split_loop start end [] = Inr ([] @ ws)" and t: "tiles start end ws" by blast
  have ne: "ws \<noteq> []" and h: "fst (hd ws) = start"
    using tiles_nonempty[OF t assms(3)] by simp_all
  have l: "snd (last ws) = end"
    using tiles_last[OF t ne] .
  have sp: "\<forall>(a, b) \<in> set ws. a \<le> b \<and> b - a + 1 \<le> 7"
    using tiles_span[OF t] by fastforce
  have ct: "\<forall>i. Suc i < length ws \<longrightarrow> fst (ws ! Suc i) = snd (ws ! i) + 1"
    using tiles_contiguous[OF t] by blast
  have "start \<le> end + 1" using assms(3) by simp
  then have cc: "concat (map (\<lambda>(a, b). [a..b]) ws) = [start..end]"
    using tiles_concat[OF t] by simp
  from r have "split_date_range start end = Inr ws"
    by (simp add: split_date_range_def)
  with ne h l sp ct cc have "\<exists>chunks. split_date_range start end = Inr chunks
           \<and> chunks \<noteq> []
           \<and> fst (hd chunks) = start
           \<and> snd (last chunks) = end
           \<and> (\<forall>(a, b) \<in> set chunks. a \<le> b \<and> b - a + 1 \<le> 7)
           \<and> (\<forall>i. Suc i < length chunks \<longrightarrow> fst (chunks ! Suc i) = snd (chunks ! i) + 1)
           \<and> concat (map (\<lambda>(a, b). [a..b]) chunks) = [start..end]" by blast
  with True show ?thesis by simp
qed

theorem split_date_range_covers_witness:
  "valid_date 739252 \<and> valid_date 739282 \<and> (739252 :: int) \<le> 739282
   \<and> 739282 < max_ordinal \<and> last_start 739252 739282 + 6 \<le> max_ordinal
   \<and> (\<exists>chunks. split_date_range 739252 739282 = Inr chunks
           \<and> chunks \<noteq> []
           \<and> fst (hd chunks) = 739252
           \<and> snd (last chunks) = 739282
           \<and> (\<forall>(a, b) \<in> set chunks. a \<le> b \<and> b - a + 1 \<le> 7)
           \<and> (\<forall>i. Suc i < length chunks \<longrightarrow> fst (chunks ! Suc i) = snd (chunks ! i) + 1)
           \<and> concat (map (\<lambda>(a, b). [a..b]) chunks) = [739252..739282])"
proof -
  have h1: "valid_date 739252" by (simp add: valid_date_def max_ordinal_def)
  have h2: "valid_date 739282" by (simp add: valid_date_def max_ordinal_def)
  have h3: "(739252 :: int) \<le> 739282" by simp
  have h4: "739282 < max_ordinal \<and> last_start 739252 739282 + 6 \<le> max_ordinal"
    by (simp add: max_ordinal_def last_start_def)
  from split_date_range_covers[OF h1 h2 h3] h4
  have "\<exists>chunks. split_date_range 739252 739282 = Inr chunks
           \<and> chunks \<noteq> []
           \<and> fst (hd chunks) = 739252
           \<and> snd (last chunks) = 739282
           \<and> (\<forall>(a, b) \<in> set chunks. a \<le> b \<and> b - a + 1 \<le> 7)
           \<and> (\<forall>i. Suc i < length chunks \<longrightarrow> fst (chunks ! Suc i) = snd (chunks ! i) + 1)
           \<and> concat (map (\<lambda>(a, b). [a..b]) chunks) = [739252..739282]"
    by (simp only: if_True)
  with h1 h2 h3 h4 show ?thesis by blast
qed

text \<open>
  Claim C2 at a description without the key \<open>filename\<close>: the task raises \<open>KeyError\<close> at line
  227, the handler of the counting loop evaluates \<open>file_info['filename']\<close> for its log
  message and raises \<open>KeyError\<close> again, and \<open>download_data\<close> raises instead of returning
  its statistics; the other description of the batch was downloaded all the same.
\<close>

theorem handler_keyerror_escapes:
  "no_name ''filename'' = None
   \<and> fst (download_data int_on_integers 5 ex_env [ex_a, no_name] ''data'' empty_world)
       = Inl (KeyError ''filename'')
   \<and> fs (snd (download_data int_on_integers 5 ex_env [ex_a, no_name] ''data'' empty_world))
         ''data/a.csv.gz''
       = Some (File 5)"
  by code_simp

end
